theory Spec2Isabelle
  imports Main "HOL-Library.Word"
begin

section \<open>The checkpoint registry of \<^verbatim>\<open>src/checkpoints/checkpoints.cpp\<close>\<close>

subsection \<open>Data\<close>

text \<open>
  A height is a \<^verbatim>\<open>uint64_t\<close>; comparisons on it are unsigned. A \<^verbatim>\<open>crypto::hash\<close> is a block
  of raw bytes compared bytewise by \<^verbatim>\<open>==\<close>. The member \<^verbatim>\<open>m_points\<close> is a
  \<^verbatim>\<open>std::map<uint64_t, crypto::hash>\<close>: it is represented by the sequence of its entries in
  iteration order, from \<^verbatim>\<open>begin()\<close> to \<^verbatim>\<open>end()\<close>. An iterator of the map is a position in
  that sequence, and \<^verbatim>\<open>end()\<close> is the length of the sequence.
\<close>

type_synonym height = "64 word"
type_synonym hash = "8 word list"
type_synonym points = "(height \<times> hash) list"

text \<open>
  The invariant of \<^verbatim>\<open>std::map\<close>: the keys are strictly ascending along the iteration
  order (hence unique).
\<close>

definition ascending :: "points \<Rightarrow> bool" where
  "ascending m = sorted_wrt (<) (map fst m)"

text \<open>The heights registered in a map, and the entry set, as the abstract view.\<close>

definition heights :: "points \<Rightarrow> height set" where
  "heights m = fst ` set m"

text \<open>
  The result of \<^verbatim>\<open>epee::string_tools::hex_to_pod\<close> is \<^verbatim>\<open>None\<close> when the call returns
  false and the decoded hash otherwise. The codec is defined outside \<^verbatim>\<open>checkpoints.cpp\<close>:
  the operations below take it as the parameter \<open>dec\<close>.
\<close>

type_synonym hex_codec = "string \<Rightarrow> hash option"

datatype network_type = MAINNET | TESTNET | STAGENET

text \<open>Dereferencing \<^verbatim>\<open>end()\<close> is undefined behaviour of the program; the model returns it as an error.\<close>

datatype error = DereferencedEnd

subsection \<open>The operations of \<^verbatim>\<open>std::map\<close> and \<^verbatim>\<open>std::max_element\<close> that the code uses\<close>

text \<open>
  \<^verbatim>\<open>find(k)\<close>: the entry with key \<open>k\<close>, \<^verbatim>\<open>None\<close> for \<^verbatim>\<open>end()\<close>. Where the code tests
  \<^verbatim>\<open>count(k)\<close> and then reads \<^verbatim>\<open>m[k]\<close> or \<^verbatim>\<open>at(k)\<close>, the model looks the key up once:
  \<^verbatim>\<open>None\<close> is the count 0, and \<^verbatim>\<open>Some\<close> gives the entry that is read.
\<close>

fun map_find :: "points \<Rightarrow> height \<Rightarrow> (height \<times> hash) option" where
  "map_find [] k = None"
| "map_find (p # ps) k = (if fst p = k then Some p else map_find ps k)"

text \<open>\<^verbatim>\<open>upper_bound(k)\<close>: the position of the first entry whose key is greater than \<open>k\<close>.\<close>

fun upper_bound :: "points \<Rightarrow> height \<Rightarrow> nat" where
  "upper_bound [] k = 0"
| "upper_bound (p # ps) k = (if k < fst p then 0 else Suc (upper_bound ps k))"

text \<open>
  \<^verbatim>\<open>m[k] = v\<close>: the entry with key \<open>k\<close> gets the value \<open>v\<close>; a new entry is put at its
  place in the order.
\<close>

fun map_assign :: "points \<Rightarrow> height \<Rightarrow> hash \<Rightarrow> points" where
  "map_assign [] k v = [(k, v)]"
| "map_assign (p # ps) k v =
     (if fst p < k then p # map_assign ps k v
      else if fst p = k then (k, v) # ps
      else (k, v) # p # ps)"

text \<open>
  \<^verbatim>\<open>std::max_element(first, last, comp)\<close> with \<open>comp\<close> comparing the keys by \<^verbatim>\<open><\<close>:
  \<^verbatim>\<open>last\<close> on an empty range, otherwise the first of the largest elements.
\<close>

fun max_element_from :: "height \<times> hash \<Rightarrow> points \<Rightarrow> height \<times> hash" where
  "max_element_from largest [] = largest"
| "max_element_from largest (p # ps) =
     max_element_from (if fst largest < fst p then p else largest) ps"

definition max_element :: "points \<Rightarrow> (height \<times> hash) option" where
  "max_element m = (case m of [] \<Rightarrow> None | p # ps \<Rightarrow> Some (max_element_from p ps))"

subsection \<open>The member functions of \<^verbatim>\<open>checkpoints\<close>\<close>

text \<open>
  A member function that is not \<^verbatim>\<open>const\<close> takes \<^verbatim>\<open>m_points\<close> and returns it with its
  result; a \<^verbatim>\<open>const\<close> one only takes it. \<^verbatim>\<open>CHECK_AND_ASSERT_MES(expr, false, msg)\<close> logs
  the message and returns false when the expression is false, as the comment in
  \<^verbatim>\<open>add_checkpoint\<close> says; logging is not modelled.
\<close>

definition add_checkpoint :: "hex_codec \<Rightarrow> points \<Rightarrow> height \<Rightarrow> string \<Rightarrow> bool \<times> points" where
  "add_checkpoint dec m height hash_str =
     (case dec hash_str of
        None \<Rightarrow> (False, m)
      | Some h \<Rightarrow>
          (case map_find m height of
             None \<Rightarrow> (True, map_assign m height h)
           | Some p \<Rightarrow>
               if h = snd p then (True, map_assign m height h) else (False, m)))"

text \<open>\<^verbatim>\<open>(--m_points.end())->first\<close> is the key of the last entry; it is read on a non-empty map only.\<close>

definition is_in_checkpoint_zone :: "points \<Rightarrow> height \<Rightarrow> bool" where
  "is_in_checkpoint_zone m height = (m \<noteq> [] \<and> height \<le> fst (last m))"

text \<open>The pair is the returned flag and the out parameter \<^verbatim>\<open>is_a_checkpoint\<close>.\<close>

definition check_block :: "points \<Rightarrow> height \<Rightarrow> hash \<Rightarrow> bool \<times> bool" where
  "check_block m height h =
     (case map_find m height of
        None \<Rightarrow> (True, False)
      | Some it \<Rightarrow> if snd it = h then (True, True) else (False, True))"

text \<open>
  \<^verbatim>\<open>it == m_points.begin()\<close> is the position 0; after \<^verbatim>\<open>--it\<close> the iterator is at the
  position before, which is in the sequence (\<open>upper_bound_le_length\<close> below).
\<close>

definition is_alternative_block_allowed :: "points \<Rightarrow> height \<Rightarrow> height \<Rightarrow> bool" where
  "is_alternative_block_allowed m blockchain_height block_height =
     (if 0 = block_height then False
      else
        let it = upper_bound m blockchain_height in
        if it = 0 then True
        else
          let checkpoint_height = fst (m ! (it - 1)) in
          checkpoint_height < block_height)"

definition get_max_height :: "points \<Rightarrow> error + height" where
  "get_max_height m =
     (case max_element m of
        None \<Rightarrow> Inl DereferencedEnd
      | Some highest \<Rightarrow> Inr (fst highest))"

definition get_points :: "points \<Rightarrow> points" where
  "get_points m = m"

fun check_for_conflicts_loop :: "points \<Rightarrow> points \<Rightarrow> bool" where
  "check_for_conflicts_loop m [] = True"
| "check_for_conflicts_loop m (pt # pts) =
     (case map_find m (fst pt) of
        None \<Rightarrow> check_for_conflicts_loop m pts
      | Some p \<Rightarrow> if snd pt = snd p then check_for_conflicts_loop m pts else False)"

definition check_for_conflicts :: "points \<Rightarrow> points \<Rightarrow> bool" where
  "check_for_conflicts m other = check_for_conflicts_loop m (get_points other)"

subsection \<open>Loading from the JSON file and from DNS\<close>

text \<open>The struct \<^verbatim>\<open>t_hashline\<close>: a checkpoint line of the file, its hash still a string.\<close>

record t_hashline =
  height :: height
  hash :: string

text \<open>
  What the file system and the JSON reader give \<^verbatim>\<open>load_checkpoints_from_json\<close>:
  the file does not exist, it exists and \<^verbatim>\<open>load_t_from_json_file\<close> fails, or it
  yields the \<^verbatim>\<open>hashlines\<close> of a \<^verbatim>\<open>t_hash_json\<close>.
\<close>

datatype hashfile = NotFound | LoadFailed | Loaded "t_hashline list"

text \<open>
  Modelled from the spec: the macro \<^verbatim>\<open>ADD_CHECKPOINT\<close>, which \<^verbatim>\<open>checkpoints.cpp\<close> uses and
  a header defines. The spec has every record go through \<^verbatim>\<open>add_point\<close>, and a
  record that fails there is logged and the merge goes on with the next record, the
  failure not being reported to the caller: the macro calls \<^verbatim>\<open>add_checkpoint\<close> and
  keeps the registry it leaves, whatever the flag.
\<close>

definition ADD_CHECKPOINT :: "hex_codec \<Rightarrow> points \<Rightarrow> height \<Rightarrow> string \<Rightarrow> points" where
  "ADD_CHECKPOINT dec m h hash_str = snd (add_checkpoint dec m h hash_str)"

text \<open>The loop over \<^verbatim>\<open>hashes.hashlines\<close>, with \<^verbatim>\<open>prev_max_height\<close> fixed before it.\<close>

fun json_loop :: "hex_codec \<Rightarrow> height \<Rightarrow> points \<Rightarrow> t_hashline list \<Rightarrow> points" where
  "json_loop dec prev_max_height m [] = m"
| "json_loop dec prev_max_height m (it # rest) =
     (if height it \<le> prev_max_height then json_loop dec prev_max_height m rest
      else json_loop dec prev_max_height (ADD_CHECKPOINT dec m (height it) (hash it)) rest)"

text \<open>
  The maximal height is taken once the file is known to exist, before the file is read
  and before the loop; the inner \<open>case\<close> is on the result of \<^verbatim>\<open>load_t_from_json_file\<close>.
\<close>

definition load_checkpoints_from_json ::
    "hex_codec \<Rightarrow> points \<Rightarrow> hashfile \<Rightarrow> error + (bool \<times> points)" where
  "load_checkpoints_from_json dec m file =
     (if file = NotFound then Inr (True, m)
      else
        case get_max_height m of
          Inl e \<Rightarrow> Inl e
        | Inr prev_max_height \<Rightarrow>
            (case file of
               Loaded hashlines \<Rightarrow> Inr (True, json_loop dec prev_max_height m hashlines)
             | _ \<Rightarrow> Inr (False, m)))"

text \<open>
  \<^verbatim>\<open>load_checkpoints_from_dns\<close> returns false right after declaring \<^verbatim>\<open>records\<close>; the rest
  of its body is never run.
\<close>

definition load_checkpoints_from_dns :: "points \<Rightarrow> network_type \<Rightarrow> bool \<times> points" where
  "load_checkpoints_from_dns m nettype = (False, m)"

definition load_new_checkpoints ::
    "hex_codec \<Rightarrow> points \<Rightarrow> hashfile \<Rightarrow> network_type \<Rightarrow> bool \<Rightarrow> error + (bool \<times> points)" where
  "load_new_checkpoints dec m file nettype dns =
     (case load_checkpoints_from_json dec m file of
        Inl e \<Rightarrow> Inl e
      | Inr (result, m') \<Rightarrow>
          if dns then
            (case load_checkpoints_from_dns m' nettype of
               (r, m'') \<Rightarrow> Inr (result \<and> r, m''))
          else Inr (result, m'))"

subsection \<open>A hex codec and sample data\<close>

text \<open>
  Modelled from the spec: the hash hex codec \<^verbatim>\<open>epee::string_tools::hex_to_pod\<close>, which is
  defined outside \<^verbatim>\<open>checkpoints.cpp\<close>. The spec has it decode a 64-character hexadecimal string
  into the 32 raw bytes of a hash and fail on malformed input. The theorems below hold
  for every codec; this one instantiates them.
\<close>

definition hex_digit :: "char \<Rightarrow> 8 word option" where
  "hex_digit c =
     (let n = (of_char c :: nat) in
      if 48 \<le> n \<and> n \<le> 57 then Some (of_nat (n - 48))
      else if 97 \<le> n \<and> n \<le> 102 then Some (of_nat (n - 87))
      else if 65 \<le> n \<and> n \<le> 70 then Some (of_nat (n - 55))
      else None)"

fun hex_bytes :: "string \<Rightarrow> 8 word list option" where
  "hex_bytes [] = Some []"
| "hex_bytes [c] = None"
| "hex_bytes (c # d # cs) =
     (case hex_digit c of
        None \<Rightarrow> None
      | Some x \<Rightarrow>
          (case hex_digit d of
             None \<Rightarrow> None
           | Some y \<Rightarrow>
               (case hex_bytes cs of
                  None \<Rightarrow> None
                | Some bs \<Rightarrow> Some ((16 * x + y) # bs))))"

definition hex_to_pod :: hex_codec where
  "hex_to_pod s =
     (case hex_bytes s of
        None \<Rightarrow> None
      | Some bs \<Rightarrow> if length bs = 32 then Some bs else None)"

text \<open>
  Three lines of the table of \<^verbatim>\<open>init_default_checkpoints\<close> (heights 2500, 5000 and 7500),
  their hashes as bytes, and a string that is no hash.
\<close>

definition str_2500 :: string where
  "str_2500 = ''ac7a0e1fcd548959fe8a2f66b8555ac708398d8ba5a9e3748d9f80c442309a98''"

definition str_5000 :: string where
  "str_5000 = ''8baad678b806fdaa69be49c12843573af75dec5b436a61e29fd3c92835166f6a''"

definition str_7500 :: string where
  "str_7500 = ''1812c369e94088150198e66473bb2451f5b82aa9ecf9992faae2d958e3a760c5''"

definition str_malformed :: string where
  "str_malformed = ''1812c369e94088150198e66473bb2451''"

definition pod_2500 :: hash where
  "pod_2500 = [172, 122, 14, 31, 205, 84, 137, 89, 254, 138, 47, 102, 184, 85, 90, 199,
               8, 57, 141, 139, 165, 169, 227, 116, 141, 159, 128, 196, 66, 48, 154, 152]"

definition pod_5000 :: hash where
  "pod_5000 = [139, 170, 214, 120, 184, 6, 253, 170, 105, 190, 73, 193, 40, 67, 87, 58,
               247, 93, 236, 91, 67, 106, 97, 226, 159, 211, 201, 40, 53, 22, 111, 106]"

definition pod_7500 :: hash where
  "pod_7500 = [24, 18, 195, 105, 233, 64, 136, 21, 1, 152, 230, 100, 115, 187, 36, 81,
               245, 184, 42, 169, 236, 249, 153, 47, 170, 226, 217, 88, 227, 167, 96, 197]"

text \<open>The registry after \<^verbatim>\<open>add_checkpoint\<close> of the lines 2500 and 5000.\<close>

definition two_points :: points where
  "two_points = [(2500, pod_2500), (5000, pod_5000)]"

text \<open>
  A file of three lines: a height below the registered maximum 2500, then the heights
  7500 and 5000 in this order.
\<close>

definition sample_lines :: "t_hashline list" where
  "sample_lines = [\<lparr>height = 1000, hash = str_7500\<rparr>, \<lparr>height = 7500, hash = str_7500\<rparr>,
                   \<lparr>height = 5000, hash = str_5000\<rparr>]"

text \<open>The lines of a file whose second line cannot be added, in two ways.\<close>

definition line_7500 :: t_hashline where
  "line_7500 = \<lparr>height = 7500, hash = str_7500\<rparr>"

definition line_7500_conflict :: t_hashline where
  "line_7500_conflict = \<lparr>height = 7500, hash = str_5000\<rparr>"

definition line_10000_malformed :: t_hashline where
  "line_10000_malformed = \<lparr>height = 10000, hash = str_malformed\<rparr>"

definition line_10000 :: t_hashline where
  "line_10000 = \<lparr>height = 10000, hash = str_2500\<rparr>"

definition three_points :: points where
  "three_points = [(2500, pod_2500), (5000, pod_5000), (7500, pod_7500)]"

section \<open>Properties\<close>

subsection \<open>The map operations on an ascending sequence\<close>

lemma ascending_Nil: "ascending []"
  by (simp add: ascending_def)

lemma ascending_Cons: "ascending (p # ps) \<longleftrightarrow> (\<forall>q \<in> set ps. fst p < fst q) \<and> ascending ps"
  by (auto simp: ascending_def)

lemma heightsI: "(k, a) \<in> set m \<Longrightarrow> k \<in> heights m"
  unfolding heights_def by (metis fst_conv imageI)

lemma map_find_None_iff: "map_find m k = None \<longleftrightarrow> k \<notin> heights m"
  by (induction m) (auto simp: heights_def)

lemma map_find_SomeD: "map_find m k = Some p \<Longrightarrow> p \<in> set m \<and> fst p = k"
  by (induction m) (auto split: if_splits)

lemma map_find_ascending: "ascending m \<Longrightarrow> p \<in> set m \<Longrightarrow> map_find m (fst p) = Some p"
  by (induction m) (auto simp: ascending_Cons)

lemma ascending_unique: "ascending m \<Longrightarrow> (k, a) \<in> set m \<Longrightarrow> (k, b) \<in> set m \<Longrightarrow> a = b"
  using map_find_ascending [of m "(k, a)"] map_find_ascending [of m "(k, b)"] by simp

lemma set_map_assign: "set (map_assign m k v) \<subseteq> insert (k, v) (set m)"
  by (induction m) auto

lemma ascending_map_assign: "ascending m \<Longrightarrow> ascending (map_assign m k v)"
proof (induction m)
  case Nil
  then show ?case by (simp add: ascending_def)
next
  case (Cons p ps)
  then show ?case
    using set_map_assign [of ps k v] by (fastforce simp: ascending_Cons)
qed

lemma set_map_assign_eq:
  "ascending m \<Longrightarrow> set (map_assign m k v) = insert (k, v) {p \<in> set m. fst p \<noteq> k}"
  by (induction m) (auto simp: ascending_Cons)

lemma heights_map_assign: "heights (map_assign m k v) = insert k (heights m)"
  by (induction m) (auto simp: heights_def)

lemma map_find_map_assign_same: "map_find (map_assign m k v) k = Some (k, v)"
  by (induction m) auto

lemma map_assign_twice: "map_assign (map_assign m k v) k v = map_assign m k v"
  by (induction m) auto

text \<open>On an ascending sequence the last key is the greatest one.\<close>

lemma last_ascending:
  assumes asc: "ascending m" and ne: "m \<noteq> []"
  shows "fst (last m) = Max (heights m)"
proof -
  have ub: "\<forall>q \<in> set m. fst q \<le> fst (last m)" using asc ne
    by (induction m) (auto simp: ascending_Cons intro: less_imp_le)
  have "fst (last m) \<in> heights m" using ne by (simp add: heights_def)
  moreover have "\<And>k. k \<in> heights m \<Longrightarrow> k \<le> fst (last m)"
    using ub by (auto simp: heights_def)
  ultimately show ?thesis
    by (intro Max_eqI [symmetric]) (simp_all add: heights_def)
qed

text \<open>\<^verbatim>\<open>std::max_element\<close> finds the greatest key, whatever the order of the range.\<close>

lemma max_element_from_mem: "max_element_from p ps \<in> set (p # ps)"
  by (induction ps arbitrary: p) auto

lemma max_element_from_ub: "q \<in> set (p # ps) \<Longrightarrow> fst q \<le> fst (max_element_from p ps)"
proof (induction ps arbitrary: p q)
  case Nil
  then show ?case by simp
next
  case (Cons r rs)
  let ?l = "if fst p < fst r then r else p"
  have step: "\<And>x. x \<in> set (?l # rs) \<Longrightarrow> fst x \<le> fst (max_element_from ?l rs)"
    by (rule Cons.IH)
  have l: "fst p \<le> fst ?l" "fst r \<le> fst ?l" by auto
  have top: "fst ?l \<le> fst (max_element_from ?l rs)" by (rule step) simp
  from Cons.prems consider "q = p" | "q = r" | "q \<in> set rs" by auto
  then show ?case
  proof cases
    case 1
    then show ?thesis using l(1) top by simp
  next
    case 2
    then show ?thesis using l(2) top by simp
  next
    case 3
    then show ?thesis using step [of q] by simp
  qed
qed

lemma max_element_from_Max: "fst (max_element_from p ps) = Max (heights (p # ps))"
proof -
  have "fst (max_element_from p ps) \<in> heights (p # ps)"
    unfolding heights_def using max_element_from_mem [of p ps] by (intro imageI)
  moreover have "\<And>k. k \<in> heights (p # ps) \<Longrightarrow> k \<le> fst (max_element_from p ps)"
    using max_element_from_ub [of _ p ps] unfolding heights_def by blast
  ultimately show ?thesis
    by (intro Max_eqI [symmetric]) (simp_all add: heights_def)
qed

lemma get_max_height_empty: "get_max_height [] = Inl DereferencedEnd"
  by (simp add: get_max_height_def max_element_def)

lemma get_max_height_nonempty: "m \<noteq> [] \<Longrightarrow> get_max_height m = Inr (Max (heights m))"
  by (cases m) (simp_all add: get_max_height_def max_element_def max_element_from_Max)

subsection \<open>The sample data\<close>

lemma hex_to_pod_2500: "hex_to_pod str_2500 = Some pod_2500"
  by (simp add: hex_to_pod_def hex_digit_def str_2500_def pod_2500_def)

lemma hex_to_pod_5000: "hex_to_pod str_5000 = Some pod_5000"
  by (simp add: hex_to_pod_def hex_digit_def str_5000_def pod_5000_def)

lemma hex_to_pod_7500: "hex_to_pod str_7500 = Some pod_7500"
  by (simp add: hex_to_pod_def hex_digit_def str_7500_def pod_7500_def)

lemma hex_to_pod_malformed: "hex_to_pod str_malformed = None"
  by (simp add: hex_to_pod_def hex_digit_def str_malformed_def)

lemma pod_distinct: "pod_2500 \<noteq> pod_5000" "pod_5000 \<noteq> pod_7500" "pod_2500 \<noteq> pod_7500"
  by (simp_all add: pod_2500_def pod_5000_def pod_7500_def)

lemma two_points_built:
  "add_checkpoint hex_to_pod [] 2500 str_2500 = (True, [(2500, pod_2500)])"
  "add_checkpoint hex_to_pod [(2500, pod_2500)] 5000 str_5000 = (True, two_points)"
  by (simp_all add: add_checkpoint_def hex_to_pod_2500 hex_to_pod_5000 two_points_def)

lemma ascending_two_points: "ascending two_points"
  by (simp add: two_points_def ascending_def)

lemma heights_two_points: "heights two_points = {2500, 5000}"
  by (simp add: two_points_def heights_def)

lemma Max_heights_two_points: "Max (heights two_points) = 5000"
  by (simp add: heights_two_points)

subsection \<open>The registry keeps the invariant of the map\<close>

lemma ascending_add_checkpoint: "ascending a \<Longrightarrow> ascending (snd (add_checkpoint dec a k s))"
  by (auto simp: add_checkpoint_def ascending_map_assign split: option.splits)

lemma add_checkpoint_failed:
  "\<not> fst (add_checkpoint dec a k s) \<Longrightarrow> add_checkpoint dec a k s = (False, a)"
  by (auto simp: add_checkpoint_def split: option.splits if_splits)

lemma heights_add_checkpoint:
  "heights (snd (add_checkpoint dec a k s)) = heights a \<or>
   heights (snd (add_checkpoint dec a k s)) = insert k (heights a)"
  by (auto simp: add_checkpoint_def heights_map_assign split: option.splits)

lemma ascending_json_loop: "ascending m \<Longrightarrow> ascending (json_loop dec pm m ls)"
  by (induction ls arbitrary: m) (simp_all add: ADD_CHECKPOINT_def ascending_add_checkpoint)

lemma ascending_load_new_checkpoints:
  "ascending m \<Longrightarrow> load_new_checkpoints dec m f nt dns = Inr (r, m') \<Longrightarrow> ascending m'"
  by (auto simp: load_new_checkpoints_def load_checkpoints_from_json_def
      load_checkpoints_from_dns_def ascending_json_loop
      split: sum.splits if_splits hashfile.splits)

subsection \<open>The hash registry\<close>

text \<open>
  Claim C6. In every registry, \<^verbatim>\<open>is_in_checkpoint_zone\<close> is false of every height when the
  registry is empty, and when it is not empty it is true of exactly the heights up to the
  greatest registered height, which is also what \<^verbatim>\<open>get_max_height\<close> returns.
\<close>

theorem is_in_checkpoint_zone_spec:
  assumes "ascending m"
  shows "(m = [] \<longrightarrow> \<not> is_in_checkpoint_zone m h) \<and>
         (m \<noteq> [] \<longrightarrow> get_max_height m = Inr (Max (heights m)) \<and>
                     is_in_checkpoint_zone m h = (h \<le> Max (heights m)))"
  using assms by (simp add: is_in_checkpoint_zone_def last_ascending get_max_height_nonempty)

theorem is_in_checkpoint_zone_spec_witness:
  "ascending two_points \<and> ascending [] \<and>
   is_in_checkpoint_zone two_points 5000 \<and> \<not> is_in_checkpoint_zone two_points 5001 \<and>
   get_max_height two_points = Inr 5000 \<and> \<not> is_in_checkpoint_zone [] 0"
proof -
  have ne: "two_points \<noteq> []" by (simp add: two_points_def)
  note t1 = is_in_checkpoint_zone_spec [OF ascending_two_points, of 5000]
  note t2 = is_in_checkpoint_zone_spec [OF ascending_two_points, of 5001]
  note t3 = is_in_checkpoint_zone_spec [OF ascending_Nil, of 0]
  from t1 ne have "is_in_checkpoint_zone two_points 5000"
    by (simp add: Max_heights_two_points)
  moreover from t2 ne have "\<not> is_in_checkpoint_zone two_points 5001"
    by (simp add: Max_heights_two_points)
  moreover from t1 ne have "get_max_height two_points = Inr 5000"
    by (simp add: Max_heights_two_points)
  moreover from t3 have "\<not> is_in_checkpoint_zone [] 0" by simp
  ultimately show ?thesis using ascending_two_points ascending_Nil by blast
qed

text \<open>
  Claim C3. In every registry, \<^verbatim>\<open>check_block\<close> returns the pair (passed, is a checkpoint):
  (true, false) at a height with no checkpoint, (true, true) at a height whose stored hash
  is the given one, (false, true) at a height whose stored hash is another one. The
  function is \<^verbatim>\<open>const\<close>: it takes the registry and returns none.
\<close>

theorem check_block_cases:
  assumes "ascending m"
  shows "(h \<notin> heights m \<longrightarrow> check_block m h x = (True, False)) \<and>
         ((h, x) \<in> set m \<longrightarrow> check_block m h x = (True, True)) \<and>
         (\<forall>y. (h, y) \<in> set m \<and> y \<noteq> x \<longrightarrow> check_block m h x = (False, True))"
proof (intro conjI allI impI)
  assume "h \<notin> heights m"
  then show "check_block m h x = (True, False)"
    by (simp add: check_block_def map_find_None_iff [symmetric])
next
  assume "(h, x) \<in> set m"
  with assms have "map_find m h = Some (h, x)"
    using map_find_ascending [of m "(h, x)"] by simp
  then show "check_block m h x = (True, True)" by (simp add: check_block_def)
next
  fix y assume "(h, y) \<in> set m \<and> y \<noteq> x"
  with assms have "map_find m h = Some (h, y)" "y \<noteq> x"
    using map_find_ascending [of m "(h, y)"] by simp_all
  then show "check_block m h x = (False, True)" by (simp add: check_block_def)
qed

theorem check_block_cases_witness:
  "ascending two_points \<and>
   7500 \<notin> heights two_points \<and> check_block two_points 7500 pod_7500 = (True, False) \<and>
   (5000, pod_5000) \<in> set two_points \<and> check_block two_points 5000 pod_5000 = (True, True) \<and>
   pod_5000 \<noteq> pod_7500 \<and> check_block two_points 5000 pod_7500 = (False, True)"
proof -
  have a: "7500 \<notin> heights two_points" by (simp add: heights_two_points)
  have b: "(5000, pod_5000) \<in> set two_points" by (simp add: two_points_def)
  note t1 = check_block_cases [OF ascending_two_points, of 7500 pod_7500]
  note t2 = check_block_cases [OF ascending_two_points, of 5000 pod_5000]
  note t3 = check_block_cases [OF ascending_two_points, of 5000 pod_7500]
  from t1 a have "check_block two_points 7500 pod_7500 = (True, False)" by blast
  moreover from t2 b have "check_block two_points 5000 pod_5000 = (True, True)" by blast
  moreover from t3 b pod_distinct(2)
  have "check_block two_points 5000 pod_7500 = (False, True)" by blast
  ultimately show ?thesis using a b pod_distinct(2) ascending_two_points by blast
qed

text \<open>
  Claim C2. In every registry, \<^verbatim>\<open>add_checkpoint\<close> fails and leaves the registry as it was
  when the hash string does not decode, and when the height is registered with another
  hash than the decoded one. In every other case it succeeds, and the registry then has
  the entries it had and the height with the decoded hash.
\<close>

theorem add_checkpoint_atomic:
  assumes "ascending m"
  shows "(dec s = None \<longrightarrow> add_checkpoint dec m h s = (False, m)) \<and>
         (\<forall>x y. dec s = Some x \<and> (h, y) \<in> set m \<and> y \<noteq> x \<longrightarrow>
                add_checkpoint dec m h s = (False, m)) \<and>
         (\<forall>x. dec s = Some x \<and> (\<forall>y. (h, y) \<in> set m \<longrightarrow> y = x) \<longrightarrow>
              fst (add_checkpoint dec m h s) \<and>
              ascending (snd (add_checkpoint dec m h s)) \<and>
              set (snd (add_checkpoint dec m h s)) = insert (h, x) (set m))"
proof (intro conjI allI impI)
  assume "dec s = None"
  then show "add_checkpoint dec m h s = (False, m)" by (simp add: add_checkpoint_def)
next
  fix x y assume a: "dec s = Some x \<and> (h, y) \<in> set m \<and> y \<noteq> x"
  with assms have "map_find m h = Some (h, y)"
    using map_find_ascending [of m "(h, y)"] by simp
  with a show "add_checkpoint dec m h s = (False, m)" by (auto simp: add_checkpoint_def)
next
  fix x assume a: "dec s = Some x \<and> (\<forall>y. (h, y) \<in> set m \<longrightarrow> y = x)"
  have ok: "add_checkpoint dec m h s = (True, map_assign m h x)"
  proof (cases "map_find m h")
    case None
    with a show ?thesis by (simp add: add_checkpoint_def)
  next
    case (Some p)
    then have "p \<in> set m" "fst p = h" using map_find_SomeD by blast+
    then have "(h, snd p) \<in> set m" by (metis prod.collapse)
    with a have "snd p = x" by blast
    with a Some show ?thesis by (simp add: add_checkpoint_def)
  qed
  show "fst (add_checkpoint dec m h s)" by (simp add: ok)
  show "ascending (snd (add_checkpoint dec m h s))"
    using assms by (simp add: ok ascending_map_assign)
  show "set (snd (add_checkpoint dec m h s)) = insert (h, x) (set m)"
    using assms a by (auto simp: ok set_map_assign_eq)
qed

theorem add_checkpoint_atomic_witness:
  "ascending two_points \<and>
   hex_to_pod str_malformed = None \<and>
   add_checkpoint hex_to_pod two_points 7500 str_malformed = (False, two_points) \<and>
   hex_to_pod str_7500 = Some pod_7500 \<and> (5000, pod_5000) \<in> set two_points \<and>
   pod_5000 \<noteq> pod_7500 \<and>
   add_checkpoint hex_to_pod two_points 5000 str_7500 = (False, two_points) \<and>
   7500 \<notin> heights two_points \<and>
   fst (add_checkpoint hex_to_pod two_points 7500 str_7500) \<and>
   set (snd (add_checkpoint hex_to_pod two_points 7500 str_7500)) =
     insert (7500, pod_7500) (set two_points)"
proof -
  have b: "(5000, pod_5000) \<in> set two_points" by (simp add: two_points_def)
  have a: "7500 \<notin> heights two_points" by (simp add: heights_two_points)
  then have c: "\<forall>y. (7500, y) \<in> set two_points \<longrightarrow> y = pod_7500" by (blast dest: heightsI)
  note t1 = add_checkpoint_atomic [OF ascending_two_points, of hex_to_pod str_malformed 7500]
  note t2 = add_checkpoint_atomic [OF ascending_two_points, of hex_to_pod str_7500 5000]
  note t3 = add_checkpoint_atomic [OF ascending_two_points, of hex_to_pod str_7500 7500]
  from t1 hex_to_pod_malformed
  have "add_checkpoint hex_to_pod two_points 7500 str_malformed = (False, two_points)" by blast
  moreover from t2 hex_to_pod_7500 b pod_distinct(2)
  have "add_checkpoint hex_to_pod two_points 5000 str_7500 = (False, two_points)" by blast
  moreover from t3 hex_to_pod_7500 c
  have "fst (add_checkpoint hex_to_pod two_points 7500 str_7500) \<and>
        set (snd (add_checkpoint hex_to_pod two_points 7500 str_7500)) =
          insert (7500, pod_7500) (set two_points)" by blast
  ultimately show ?thesis
    using ascending_two_points hex_to_pod_malformed hex_to_pod_7500 a b pod_distinct(2)
    by blast
qed

text \<open>
  Claim C9, as amended. In every registry and for every hash string that decodes, a second
  \<^verbatim>\<open>add_checkpoint\<close> of the same height and string returns the flag of the first and
  leaves the registry the first left. The flag is success when the height is not
  registered with another hash. When it is registered with another hash, both calls
  return false and the registry stays as it was: the test at the height already present
  refuses the new hash.
\<close>

theorem add_checkpoint_idempotent:
  assumes "dec s = Some x"
  shows "add_checkpoint dec (snd (add_checkpoint dec m h s)) h s = add_checkpoint dec m h s \<and>
         ((\<forall>y. (h, y) \<in> set m \<longrightarrow> y = x) \<longrightarrow> fst (add_checkpoint dec m h s)) \<and>
         (\<forall>y. ascending m \<and> (h, y) \<in> set m \<and> y \<noteq> x \<longrightarrow>
              add_checkpoint dec m h s = (False, m) \<and>
              add_checkpoint dec (snd (add_checkpoint dec m h s)) h s = (False, m))"
proof (intro conjI allI impI)
  show twice: "add_checkpoint dec (snd (add_checkpoint dec m h s)) h s = add_checkpoint dec m h s"
  proof (cases "map_find m h")
    case None
    then show ?thesis using assms
      by (simp add: add_checkpoint_def map_find_map_assign_same map_assign_twice)
  next
    case (Some p)
    then show ?thesis using assms
      by (cases "x = snd p")
         (simp_all add: add_checkpoint_def map_find_map_assign_same map_assign_twice)
  qed
  show "fst (add_checkpoint dec m h s)" if free: "\<forall>y. (h, y) \<in> set m \<longrightarrow> y = x"
  proof (cases "map_find m h")
    case None
    then show ?thesis using assms by (simp add: add_checkpoint_def)
  next
    case (Some p)
    then have "p \<in> set m" "fst p = h" using map_find_SomeD by blast+
    then have "(h, snd p) \<in> set m" by (metis prod.collapse)
    with free have "snd p = x" by blast
    then show ?thesis using assms Some by (simp add: add_checkpoint_def)
  qed
  fix y assume c: "ascending m \<and> (h, y) \<in> set m \<and> y \<noteq> x"
  then have "map_find m h = Some (h, y)"
    using map_find_ascending [of m "(h, y)"] by simp
  with c assms show once: "add_checkpoint dec m h s = (False, m)"
    by (auto simp: add_checkpoint_def)
  with twice show "add_checkpoint dec (snd (add_checkpoint dec m h s)) h s = (False, m)"
    by simp
qed

theorem add_checkpoint_idempotent_witness:
  "hex_to_pod str_7500 = Some pod_7500 \<and>
   7500 \<notin> heights two_points \<and>
   add_checkpoint hex_to_pod two_points 7500 str_7500 = (True, three_points) \<and>
   add_checkpoint hex_to_pod (snd (add_checkpoint hex_to_pod two_points 7500 str_7500))
     7500 str_7500 = (True, three_points) \<and>
   ascending two_points \<and> (5000, pod_5000) \<in> set two_points \<and> pod_5000 \<noteq> pod_7500 \<and>
   add_checkpoint hex_to_pod two_points 5000 str_7500 = (False, two_points) \<and>
   add_checkpoint hex_to_pod (snd (add_checkpoint hex_to_pod two_points 5000 str_7500))
     5000 str_7500 = (False, two_points)"
proof -
  have a: "7500 \<notin> heights two_points" by (simp add: heights_two_points)
  then have c: "\<forall>y. (7500, y) \<in> set two_points \<longrightarrow> y = pod_7500" by (blast dest: heightsI)
  have b: "(5000, pod_5000) \<in> set two_points" by (simp add: two_points_def)
  note t = add_checkpoint_idempotent [of hex_to_pod str_7500 pod_7500 two_points 7500,
      OF hex_to_pod_7500]
  note u = add_checkpoint_idempotent [of hex_to_pod str_7500 pod_7500 two_points 5000,
      OF hex_to_pod_7500]
  from t c have ok: "fst (add_checkpoint hex_to_pod two_points 7500 str_7500)" by blast
  have "snd (add_checkpoint hex_to_pod two_points 7500 str_7500) = three_points"
    by (simp add: add_checkpoint_def hex_to_pod_7500 two_points_def three_points_def)
  with ok have once: "add_checkpoint hex_to_pod two_points 7500 str_7500 = (True, three_points)"
    by (simp add: prod_eq_iff)
  from t have "add_checkpoint hex_to_pod (snd (add_checkpoint hex_to_pod two_points 7500 str_7500))
     7500 str_7500 = add_checkpoint hex_to_pod two_points 7500 str_7500" by blast
  with once have twice: "add_checkpoint hex_to_pod
     (snd (add_checkpoint hex_to_pod two_points 7500 str_7500)) 7500 str_7500 =
     (True, three_points)" by simp
  from u ascending_two_points b pod_distinct(2)
  have fail: "add_checkpoint hex_to_pod two_points 5000 str_7500 = (False, two_points) \<and>
     add_checkpoint hex_to_pod (snd (add_checkpoint hex_to_pod two_points 5000 str_7500))
       5000 str_7500 = (False, two_points)" by blast
  from hex_to_pod_7500 a once twice ascending_two_points b pod_distinct(2) fail
  show ?thesis by blast
qed

text \<open>
  The claim as first worded has success for every registry and every hash that decodes.
  In the registry with the heights 2500 and 5000, the hash of the line 7500 decodes and is
  refused at the height 5000, by the first call and by the second.
\<close>

theorem add_checkpoint_success_counterexample:
  "hex_to_pod str_7500 = Some pod_7500 \<and>
   \<not> fst (add_checkpoint hex_to_pod two_points 5000 str_7500) \<and>
   \<not> fst (add_checkpoint hex_to_pod (snd (add_checkpoint hex_to_pod two_points 5000 str_7500))
            5000 str_7500)"
  using pod_distinct(2)
  by (simp add: add_checkpoint_def hex_to_pod_7500 two_points_def)

subsection \<open>The conflict checker\<close>

lemma check_for_conflicts_loop_iff:
  assumes "ascending m"
  shows "check_for_conflicts_loop m pts =
           (\<forall>pt \<in> set pts. \<forall>a. (fst pt, a) \<in> set m \<longrightarrow> snd pt = a)"
proof (induction pts)
  case Nil
  then show ?case by simp
next
  case (Cons pt pts)
  show ?case
  proof (cases "map_find m (fst pt)")
    case None
    then have "fst pt \<notin> heights m" by (simp add: map_find_None_iff)
    then have "\<And>a. (fst pt, a) \<notin> set m" by (blast dest: heightsI)
    then show ?thesis using None Cons.IH by simp
  next
    case (Some p)
    then have p: "p \<in> set m" "fst p = fst pt" using map_find_SomeD by blast+
    then have mem: "(fst pt, snd p) \<in> set m" by (metis prod.collapse)
    have "\<And>a. (fst pt, a) \<in> set m \<Longrightarrow> a = snd p"
      using ascending_unique [OF assms _ mem] by blast
    with mem have head: "(\<forall>a. (fst pt, a) \<in> set m \<longrightarrow> snd pt = a) = (snd pt = snd p)"
      by blast
    show ?thesis using Some by (simp add: Cons.IH head)
  qed
qed

lemma check_for_conflicts_iff:
  assumes "ascending m"
  shows "check_for_conflicts m other =
           (\<not> (\<exists>k a b. (k, a) \<in> set m \<and> (k, b) \<in> set other \<and> a \<noteq> b))"
proof -
  have "(\<forall>pt \<in> set other. \<forall>a. (fst pt, a) \<in> set m \<longrightarrow> snd pt = a) =
        (\<forall>k b. (k, b) \<in> set other \<longrightarrow> (\<forall>a. (k, a) \<in> set m \<longrightarrow> b = a))"
    by (simp add: Ball_def)
  also have "\<dots> = (\<not> (\<exists>k a b. (k, a) \<in> set m \<and> (k, b) \<in> set other \<and> a \<noteq> b))"
    by blast
  finally show ?thesis
    by (simp add: check_for_conflicts_def get_points_def check_for_conflicts_loop_iff [OF assms])
qed

text \<open>
  Claim C7. For every registry and every other registry, \<^verbatim>\<open>check_for_conflicts\<close> is false
  exactly when some height has an entry in both with two different hashes; so it is true
  when either is empty and when they share no height. The function is \<^verbatim>\<open>const\<close> and takes
  the other registry as \<^verbatim>\<open>const\<close>: it returns no registry.
\<close>

theorem check_for_conflicts_spec:
  assumes "ascending m"
  shows "check_for_conflicts m other =
           (\<not> (\<exists>k a b. (k, a) \<in> set m \<and> (k, b) \<in> set other \<and> a \<noteq> b)) \<and>
         check_for_conflicts m [] \<and> check_for_conflicts [] other \<and>
         (heights m \<inter> heights other = {} \<longrightarrow> check_for_conflicts m other)"
proof -
  have e: "check_for_conflicts [] other"
    by (simp add: check_for_conflicts_iff ascending_Nil)
  have d: "heights m \<inter> heights other = {} \<longrightarrow> check_for_conflicts m other"
  proof
    assume dis: "heights m \<inter> heights other = {}"
    have "\<And>k a b. (k, a) \<in> set m \<Longrightarrow> (k, b) \<in> set other \<Longrightarrow> False"
    proof -
      fix k a b assume "(k, a) \<in> set m" "(k, b) \<in> set other"
      then have "k \<in> heights m \<inter> heights other" by (simp add: heightsI)
      with dis show False by simp
    qed
    then show "check_for_conflicts m other" using check_for_conflicts_iff [OF assms] by blast
  qed
  show ?thesis using check_for_conflicts_iff [OF assms] e d
    by (simp add: check_for_conflicts_def get_points_def)
qed

theorem check_for_conflicts_spec_witness:
  "ascending two_points \<and>
   (5000, pod_5000) \<in> set two_points \<and> pod_5000 \<noteq> pod_7500 \<and>
   \<not> check_for_conflicts two_points [(5000, pod_7500)] \<and>
   heights two_points \<inter> heights [(7500, pod_7500)] = {} \<and>
   check_for_conflicts two_points [(7500, pod_7500)] \<and>
   check_for_conflicts two_points two_points"
proof -
  have b: "(5000, pod_5000) \<in> set two_points" by (simp add: two_points_def)
  have dis: "heights two_points \<inter> heights [(7500, pod_7500)] = {}"
    by (simp add: heights_two_points) (simp add: heights_def)
  note t1 = check_for_conflicts_spec [OF ascending_two_points, of "[(5000, pod_7500)]"]
  note t2 = check_for_conflicts_spec [OF ascending_two_points, of "[(7500, pod_7500)]"]
  note t3 = check_for_conflicts_spec [OF ascending_two_points, of two_points]
  have "\<exists>k a b. (k, a) \<in> set two_points \<and> (k, b) \<in> set [(5000, pod_7500)] \<and> a \<noteq> b"
    using b pod_distinct(2) by auto
  with t1 have "\<not> check_for_conflicts two_points [(5000, pod_7500)]" by blast
  moreover from t2 dis have "check_for_conflicts two_points [(7500, pod_7500)]" by blast
  moreover have "check_for_conflicts two_points two_points"
    using t3 ascending_unique [OF ascending_two_points] by blast
  ultimately show ?thesis using ascending_two_points b dis pod_distinct(2) by blast
qed

subsection \<open>The reorg gate\<close>

lemma upper_bound_zero_iff:
  "ascending m \<Longrightarrow> upper_bound m k = 0 \<longleftrightarrow> (\<forall>q \<in> set m. k < fst q)"
  by (cases m) (auto simp: ascending_Cons)

lemma upper_bound_le_length: "upper_bound m k \<le> length m"
  by (induction m) auto

text \<open>
  The entry before \<^verbatim>\<open>upper_bound(k)\<close> is an entry of the map, and its key is the greatest
  key that is at most \<open>k\<close>.
\<close>

lemma upper_bound_pred:
  "ascending m \<Longrightarrow> upper_bound m k \<noteq> 0 \<Longrightarrow>
     m ! (upper_bound m k - 1) \<in> set m \<and> fst (m ! (upper_bound m k - 1)) \<le> k \<and>
     (\<forall>q \<in> set m. fst q \<le> k \<longrightarrow> fst q \<le> fst (m ! (upper_bound m k - 1)))"
proof (induction m)
  case Nil
  then show ?case by simp
next
  case (Cons p ps)
  from Cons.prems have le: "fst p \<le> k" by (auto split: if_splits)
  from Cons.prems have asc: "ascending ps" and lt: "\<forall>q \<in> set ps. fst p < fst q"
    by (simp_all add: ascending_Cons)
  show ?case
  proof (cases "upper_bound ps k = 0")
    case True
    then have "\<forall>q \<in> set ps. k < fst q" using asc by (simp add: upper_bound_zero_iff)
    then show ?thesis using le True by auto
  next
    case False
    then obtain n where n: "upper_bound ps k = Suc n" by (cases "upper_bound ps k") auto
    from Cons.IH [OF asc False] n
    have ih: "ps ! n \<in> set ps" "fst (ps ! n) \<le> k"
      "\<forall>q \<in> set ps. fst q \<le> k \<longrightarrow> fst q \<le> fst (ps ! n)" by simp_all
    have "fst p \<le> fst (ps ! n)" using lt ih(1) by (auto intro: less_imp_le)
    then show ?thesis using le n ih by auto
  qed
qed

lemma upper_bound_pred_Max:
  assumes "ascending m" "upper_bound m k \<noteq> 0"
  shows "fst (m ! (upper_bound m k - 1)) = Max {x \<in> heights m. x \<le> k}"
proof -
  let ?x = "fst (m ! (upper_bound m k - 1))"
  from upper_bound_pred [OF assms]
  have a: "m ! (upper_bound m k - 1) \<in> set m" and b: "?x \<le> k"
    and c: "\<forall>q \<in> set m. fst q \<le> k \<longrightarrow> fst q \<le> ?x" by simp_all
  have "?x \<in> {x \<in> heights m. x \<le> k}" using a b by (simp add: heights_def)
  moreover have "\<And>y. y \<in> {x \<in> heights m. x \<le> k} \<Longrightarrow> y \<le> ?x"
    using c by (auto simp: heights_def)
  moreover have "finite {x \<in> heights m. x \<le> k}" by (simp add: heights_def)
  ultimately show ?thesis by (intro Max_eqI [symmetric])
qed

lemma below_3000: "{x \<in> heights two_points. x \<le> 3000} = {2500}"
  by (auto simp: heights_two_points)

lemma below_1000: "{x \<in> heights two_points. x \<le> 1000} = {}"
  by (auto simp: heights_two_points)

text \<open>
  Claim C1. In every registry, \<^verbatim>\<open>is_alternative_block_allowed\<close> is false for the candidate
  height 0; otherwise it is true when no checkpoint height is at most the current chain
  height, and else true exactly when the candidate height is greater than the greatest
  checkpoint height that is at most the current chain height. With the checkpoints 100
  and 200: (150, 250) and (50, 10) are allowed and (150, 90) is not.
\<close>

theorem is_alternative_block_allowed_spec:
  assumes "ascending m"
  shows "is_alternative_block_allowed m cur cand =
           (cand \<noteq> 0 \<and>
            ({x \<in> heights m. x \<le> cur} = {} \<or> Max {x \<in> heights m. x \<le> cur} < cand)) \<and>
         is_alternative_block_allowed [(100, A), (200, B)] 150 250 \<and>
         is_alternative_block_allowed [(100, A), (200, B)] 50 10 \<and>
         \<not> is_alternative_block_allowed [(100, A), (200, B)] 150 90"
proof (intro conjI)
  show "is_alternative_block_allowed m cur cand =
           (cand \<noteq> 0 \<and>
            ({x \<in> heights m. x \<le> cur} = {} \<or> Max {x \<in> heights m. x \<le> cur} < cand))"
  proof (cases "upper_bound m cur = 0")
    case True
    then have "{x \<in> heights m. x \<le> cur} = {}"
      using assms by (auto simp: upper_bound_zero_iff heights_def)
    then show ?thesis using True by (auto simp: is_alternative_block_allowed_def)
  next
    case False
    then have "{x \<in> heights m. x \<le> cur} \<noteq> {}"
      using assms by (auto simp: upper_bound_zero_iff heights_def not_less)
    then show ?thesis using False upper_bound_pred_Max [OF assms False]
      by (auto simp: is_alternative_block_allowed_def Let_def)
  qed
qed (simp_all add: is_alternative_block_allowed_def)

theorem is_alternative_block_allowed_spec_witness:
  "ascending two_points \<and>
   is_alternative_block_allowed two_points 3000 6000 \<and>
   is_alternative_block_allowed two_points 1000 10 \<and>
   \<not> is_alternative_block_allowed two_points 3000 2000 \<and>
   \<not> is_alternative_block_allowed two_points 3000 2500 \<and>
   \<not> is_alternative_block_allowed two_points 1000 0"
proof -
  note t = is_alternative_block_allowed_spec [OF ascending_two_points]
  have "is_alternative_block_allowed two_points 3000 6000"
    using t [of 3000 6000] by (simp add: below_3000)
  moreover have "is_alternative_block_allowed two_points 1000 10"
    using t [of 1000 10] by (simp add: below_1000)
  moreover have "\<not> is_alternative_block_allowed two_points 3000 2000"
    using t [of 3000 2000] by (simp add: below_3000)
  moreover have "\<not> is_alternative_block_allowed two_points 3000 2500"
    using t [of 3000 2500] by (simp add: below_3000)
  moreover have "\<not> is_alternative_block_allowed two_points 1000 0"
    using t [of 1000 0] by simp
  ultimately show ?thesis using ascending_two_points by blast
qed

subsection \<open>Merging the checkpoints of the JSON file\<close>

lemma json_loop_foldl:
  "json_loop dec pm m ls =
     foldl (\<lambda>a l. snd (add_checkpoint dec a (height l) (hash l))) m
       (filter (\<lambda>l. pm < height l) ls)"
  by (induction ls arbitrary: m) (auto simp: ADD_CHECKPOINT_def not_le)

lemma json_loop_append:
  "json_loop dec pm m (xs @ ys) = json_loop dec pm (json_loop dec pm m xs) ys"
  by (induction xs arbitrary: m) simp_all

lemma heights_json_loop:
  "k \<le> pm \<Longrightarrow> k \<in> heights (json_loop dec pm m ls) \<longleftrightarrow> k \<in> heights m"
proof (induction ls arbitrary: m)
  case Nil
  then show ?case by simp
next
  case (Cons l ls)
  show ?case
  proof (cases "height l \<le> pm")
    case True
    then show ?thesis using Cons by simp
  next
    case False
    with Cons.prems have ne: "k \<noteq> height l" by auto
    have "k \<in> heights (snd (add_checkpoint dec m (height l) (hash l))) \<longleftrightarrow> k \<in> heights m"
      using heights_add_checkpoint [of dec m "height l" "hash l"] ne by auto
    then show ?thesis using False Cons by (simp add: ADD_CHECKPOINT_def)
  qed
qed

lemma load_checkpoints_from_json_Loaded:
  "m \<noteq> [] \<Longrightarrow> load_checkpoints_from_json dec m (Loaded ls) =
     Inr (True, json_loop dec (Max (heights m)) m ls)"
  by (simp add: load_checkpoints_from_json_def get_max_height_nonempty)

text \<open>
  Claim C4. On a registry that is not empty, \<^verbatim>\<open>load_checkpoints_from_json\<close> of a file that
  loads takes the maximal height of the registry as it is before the first record, skips
  each record whose height is at most that maximum, and hands the other records to
  \<^verbatim>\<open>add_checkpoint\<close> in the order of the file. A height up to that maximum is registered
  afterwards exactly when it was before. With the maximum 100 and the file heights 50, 150
  and 200, whose last two hashes decode, the heights afterwards are 100, 150 and 200.
\<close>

theorem load_checkpoints_from_json_merge:
  assumes "m \<noteq> []"
  shows "load_checkpoints_from_json dec m (Loaded ls) =
           Inr (True, foldl (\<lambda>a l. snd (add_checkpoint dec a (height l) (hash l))) m
                        (filter (\<lambda>l. Max (heights m) < height l) ls)) \<and>
         (\<forall>m' k. load_checkpoints_from_json dec m (Loaded ls) = Inr (True, m') \<and>
                 k \<le> Max (heights m) \<longrightarrow> (k \<in> heights m' \<longleftrightarrow> k \<in> heights m)) \<and>
         (dec sb = Some hb \<and> dec sc = Some hc \<longrightarrow>
            load_checkpoints_from_json dec [(100, A)]
              (Loaded [\<lparr>height = 50, hash = sa\<rparr>, \<lparr>height = 150, hash = sb\<rparr>,
                       \<lparr>height = 200, hash = sc\<rparr>]) =
            Inr (True, [(100, A), (150, hb), (200, hc)]))"
proof (intro conjI allI impI)
  show "load_checkpoints_from_json dec m (Loaded ls) =
           Inr (True, foldl (\<lambda>a l. snd (add_checkpoint dec a (height l) (hash l))) m
                        (filter (\<lambda>l. Max (heights m) < height l) ls))"
    using assms by (simp add: load_checkpoints_from_json_Loaded json_loop_foldl)
next
  fix m' k
  assume "load_checkpoints_from_json dec m (Loaded ls) = Inr (True, m') \<and> k \<le> Max (heights m)"
  then show "k \<in> heights m' \<longleftrightarrow> k \<in> heights m"
    using assms by (auto simp: load_checkpoints_from_json_Loaded heights_json_loop)
next
  assume "dec sb = Some hb \<and> dec sc = Some hc"
  then show "load_checkpoints_from_json dec [(100, A)]
              (Loaded [\<lparr>height = 50, hash = sa\<rparr>, \<lparr>height = 150, hash = sb\<rparr>,
                       \<lparr>height = 200, hash = sc\<rparr>]) =
            Inr (True, [(100, A), (150, hb), (200, hc)])"
    by (simp add: load_checkpoints_from_json_def get_max_height_def max_element_def
        ADD_CHECKPOINT_def add_checkpoint_def)
qed

theorem load_checkpoints_from_json_merge_witness:
  "[(2500, pod_2500)] \<noteq> [] \<and>
   load_checkpoints_from_json hex_to_pod [(2500, pod_2500)] (Loaded sample_lines) =
     Inr (True, three_points) \<and>
   1000 \<le> Max (heights [(2500, pod_2500)]) \<and> 1000 \<notin> heights three_points \<and>
   hex_to_pod str_5000 = Some pod_5000 \<and> hex_to_pod str_7500 = Some pod_7500 \<and>
   load_checkpoints_from_json hex_to_pod [(100, pod_2500)]
     (Loaded [\<lparr>height = 50, hash = str_malformed\<rparr>, \<lparr>height = 150, hash = str_5000\<rparr>,
              \<lparr>height = 200, hash = str_7500\<rparr>]) =
     Inr (True, [(100, pod_2500), (150, pod_5000), (200, pod_7500)])"
proof -
  have ne: "[(2500, pod_2500)] \<noteq> []" by simp
  have mx: "Max (heights [(2500, pod_2500)]) = 2500" by (simp add: heights_def)
  note t = load_checkpoints_from_json_merge [where m = "[(2500, pod_2500)]"
      and dec = hex_to_pod and ls = sample_lines and sb = str_5000 and hb = pod_5000
      and sc = str_7500 and hc = pod_7500 and A = pod_2500 and sa = str_malformed, OF ne]
  from t have r: "load_checkpoints_from_json hex_to_pod [(2500, pod_2500)] (Loaded sample_lines) =
     Inr (True, three_points)"
    by (simp add: mx sample_lines_def add_checkpoint_def hex_to_pod_7500 hex_to_pod_5000
        three_points_def)
  have le: "1000 \<le> Max (heights [(2500, pod_2500)])" by (simp add: mx)
  from t r le have "(1000 \<in> heights three_points) = (1000 \<in> heights [(2500, pod_2500)])"
    by blast
  then have absent: "1000 \<notin> heights three_points" by (simp add: heights_def)
  from t hex_to_pod_5000 hex_to_pod_7500
  have "load_checkpoints_from_json hex_to_pod [(100, pod_2500)]
     (Loaded [\<lparr>height = 50, hash = str_malformed\<rparr>, \<lparr>height = 150, hash = str_5000\<rparr>,
              \<lparr>height = 200, hash = str_7500\<rparr>]) =
     Inr (True, [(100, pod_2500), (150, pod_5000), (200, pod_7500)])" by blast
  with r le absent hex_to_pod_5000 hex_to_pod_7500 show ?thesis by blast
qed

lemma two_points_ne: "two_points \<noteq> []"
  by (simp add: two_points_def)

lemma load_line_7500:
  "load_checkpoints_from_json hex_to_pod two_points (Loaded [line_7500]) = Inr (True, three_points)"
  by (simp add: load_checkpoints_from_json_Loaded two_points_ne Max_heights_two_points
      line_7500_def ADD_CHECKPOINT_def add_checkpoint_def hex_to_pod_7500)
     (simp add: two_points_def three_points_def)

lemma refused_conflict:
  "\<not> fst (add_checkpoint hex_to_pod three_points (height line_7500_conflict)
            (hash line_7500_conflict))"
  using pod_distinct(2)
  by (simp add: add_checkpoint_def line_7500_conflict_def hex_to_pod_5000 three_points_def)

lemma refused_malformed:
  "\<not> fst (add_checkpoint hex_to_pod three_points (height line_10000_malformed)
            (hash line_10000_malformed))"
  by (simp add: add_checkpoint_def line_10000_malformed_def hex_to_pod_malformed)


text \<open>
  Claim C5. On a registry that is not empty, \<^verbatim>\<open>load_checkpoints_from_json\<close> of a file that
  loads returns true whatever the records. A record that \<^verbatim>\<open>add_checkpoint\<close> refuses, in
  the registry the records before it have left, changes nothing: the records after it that
  are above the maximum taken at the start go to \<^verbatim>\<open>add_checkpoint\<close> in their order, from
  that registry, and the result is the one of the file without the refused record. This
  rests on \<^verbatim>\<open>ADD_CHECKPOINT\<close> as the spec has it.
\<close>

theorem load_checkpoints_from_json_continues:
  assumes "m \<noteq> []"
  shows "(\<exists>m'. load_checkpoints_from_json dec m (Loaded ls) = Inr (True, m')) \<and>
         (load_checkpoints_from_json dec m (Loaded pre) = Inr (True, m1) \<and>
          \<not> fst (add_checkpoint dec m1 (height l) (hash l)) \<longrightarrow>
            load_checkpoints_from_json dec m (Loaded (pre @ l # post)) =
              Inr (True, foldl (\<lambda>a l. snd (add_checkpoint dec a (height l) (hash l))) m1
                           (filter (\<lambda>l. Max (heights m) < height l) post)) \<and>
            load_checkpoints_from_json dec m (Loaded (pre @ l # post)) =
              load_checkpoints_from_json dec m (Loaded (pre @ post)))"
proof (intro conjI impI)
  show "\<exists>m'. load_checkpoints_from_json dec m (Loaded ls) = Inr (True, m')"
    using assms by (simp add: load_checkpoints_from_json_Loaded)
next
  let ?pm = "Max (heights m)"
  assume a: "load_checkpoints_from_json dec m (Loaded pre) = Inr (True, m1) \<and>
          \<not> fst (add_checkpoint dec m1 (height l) (hash l))"
  then have m1: "json_loop dec ?pm m pre = m1"
    using assms by (simp add: load_checkpoints_from_json_Loaded)
  from a have "ADD_CHECKPOINT dec m1 (height l) (hash l) = m1"
    by (simp add: ADD_CHECKPOINT_def add_checkpoint_failed)
  then have skip: "json_loop dec ?pm m1 (l # post) = json_loop dec ?pm m1 post" by simp
  show "load_checkpoints_from_json dec m (Loaded (pre @ l # post)) =
              Inr (True, foldl (\<lambda>a l. snd (add_checkpoint dec a (height l) (hash l))) m1
                           (filter (\<lambda>l. Max (heights m) < height l) post))"
  proof -
    have "json_loop dec ?pm m (pre @ l # post) = json_loop dec ?pm m1 post"
      by (simp only: json_loop_append m1 skip)
    then show ?thesis
      using assms by (simp add: load_checkpoints_from_json_Loaded json_loop_foldl)
  qed
  show "load_checkpoints_from_json dec m (Loaded (pre @ l # post)) =
              load_checkpoints_from_json dec m (Loaded (pre @ post))"
  proof -
    have "json_loop dec ?pm m (pre @ l # post) = json_loop dec ?pm m (pre @ post)"
      by (simp only: json_loop_append m1 skip)
    then show ?thesis
      using assms by (simp add: load_checkpoints_from_json_Loaded)
  qed
qed

theorem load_checkpoints_from_json_continues_witness:
  "two_points \<noteq> [] \<and>
   load_checkpoints_from_json hex_to_pod two_points (Loaded [line_7500]) =
     Inr (True, three_points) \<and>
   \<not> fst (add_checkpoint hex_to_pod three_points (height line_7500_conflict)
            (hash line_7500_conflict)) \<and>
   \<not> fst (add_checkpoint hex_to_pod three_points (height line_10000_malformed)
            (hash line_10000_malformed)) \<and>
   load_checkpoints_from_json hex_to_pod two_points
       (Loaded ([line_7500] @ line_7500_conflict # [line_10000])) =
     Inr (True, three_points @ [(10000, pod_2500)]) \<and>
   load_checkpoints_from_json hex_to_pod two_points
       (Loaded ([line_7500] @ line_10000_malformed # [line_10000])) =
     Inr (True, three_points @ [(10000, pod_2500)])"
proof -
  note t1 = load_checkpoints_from_json_continues [OF two_points_ne, of hex_to_pod _
      "[line_7500]" three_points line_7500_conflict "[line_10000]"]
  note t2 = load_checkpoints_from_json_continues [OF two_points_ne, of hex_to_pod _
      "[line_7500]" three_points line_10000_malformed "[line_10000]"]
  have rest: "foldl (\<lambda>a l. snd (add_checkpoint hex_to_pod a (height l) (hash l))) three_points
                (filter (\<lambda>l. Max (heights two_points) < height l) [line_10000]) =
              three_points @ [(10000, pod_2500)]"
    by (simp add: Max_heights_two_points line_10000_def add_checkpoint_def hex_to_pod_2500
        three_points_def)
  from t1 load_line_7500 refused_conflict
  have "load_checkpoints_from_json hex_to_pod two_points
       (Loaded ([line_7500] @ line_7500_conflict # [line_10000])) =
     Inr (True, three_points @ [(10000, pod_2500)])"
    unfolding rest by blast
  moreover from t2 load_line_7500 refused_malformed
  have "load_checkpoints_from_json hex_to_pod two_points
       (Loaded ([line_7500] @ line_10000_malformed # [line_10000])) =
     Inr (True, three_points @ [(10000, pod_2500)])"
    unfolding rest by blast
  ultimately show ?thesis
    using two_points_ne load_line_7500 refused_conflict refused_malformed by blast
qed

text \<open>
  Claim C10. \<^verbatim>\<open>get_max_height\<close> dereferences \<^verbatim>\<open>end()\<close> exactly on the empty registry.
  \<^verbatim>\<open>load_checkpoints_from_json\<close> calls it whenever the file exists, before the file is
  read and with no test for emptiness: it reaches that dereference exactly when the
  registry is empty and the file exists, and it returns in every other case.
\<close>

theorem load_checkpoints_from_json_snapshot:
  "(get_max_height m = Inl DereferencedEnd \<longleftrightarrow> m = []) \<and>
   (load_checkpoints_from_json dec m f = Inl DereferencedEnd \<longleftrightarrow> m = [] \<and> f \<noteq> NotFound) \<and>
   (m \<noteq> [] \<or> f = NotFound \<longleftrightarrow> (\<exists>r m'. load_checkpoints_from_json dec m f = Inr (r, m')))"
  by (cases m; cases f)
     (auto simp: load_checkpoints_from_json_def get_max_height_empty get_max_height_nonempty)

theorem load_checkpoints_from_json_snapshot_witness:
  "load_checkpoints_from_json hex_to_pod [] (Loaded [line_7500]) = Inl DereferencedEnd \<and>
   load_checkpoints_from_json hex_to_pod [] LoadFailed = Inl DereferencedEnd \<and>
   load_checkpoints_from_json hex_to_pod [] NotFound \<noteq> Inl DereferencedEnd \<and>
   load_checkpoints_from_json hex_to_pod two_points (Loaded [line_7500]) \<noteq> Inl DereferencedEnd"
  using load_checkpoints_from_json_snapshot [of "[]" hex_to_pod "Loaded [line_7500]"]
    load_checkpoints_from_json_snapshot [of "[]" hex_to_pod LoadFailed]
    load_checkpoints_from_json_snapshot [of "[]" hex_to_pod NotFound]
    load_checkpoints_from_json_snapshot [of two_points hex_to_pod "Loaded [line_7500]"]
  by (simp add: two_points_ne)

subsection \<open>Loading the new checkpoints\<close>

text \<open>
  In this source \<^verbatim>\<open>load_checkpoints_from_dns\<close> adds nothing and returns false, so with the
  DNS flag the result of \<^verbatim>\<open>load_new_checkpoints\<close> is never true.
\<close>

lemma load_new_checkpoints_dns:
  "load_new_checkpoints dec m f nt True = Inr (r, m') \<Longrightarrow>
     \<not> r \<and> (\<exists>r'. load_checkpoints_from_json dec m f = Inr (r', m'))"
  by (auto simp: load_new_checkpoints_def load_checkpoints_from_dns_def split: sum.splits)

text \<open>
  Claim C8. \<^verbatim>\<open>load_new_checkpoints\<close> always runs \<^verbatim>\<open>load_checkpoints_from_json\<close>. Without
  the DNS flag that is all it does, and its result is the one of the file. With the flag it
  then runs \<^verbatim>\<open>load_checkpoints_from_dns\<close> on the registry left by the file, and returns the
  conjunction of the two flags.
\<close>

theorem load_new_checkpoints_spec:
  "(\<not> dns \<longrightarrow> load_new_checkpoints dec m f nettype dns = load_checkpoints_from_json dec m f) \<and>
   (dns \<longrightarrow> load_new_checkpoints dec m f nettype dns =
      (case load_checkpoints_from_json dec m f of
         Inl e \<Rightarrow> Inl e
       | Inr (r1, m1) \<Rightarrow>
           Inr (r1 \<and> fst (load_checkpoints_from_dns m1 nettype),
                snd (load_checkpoints_from_dns m1 nettype))))"
  by (auto simp: load_new_checkpoints_def split: sum.splits prod.splits)

theorem load_new_checkpoints_spec_witness:
  "load_new_checkpoints hex_to_pod two_points (Loaded [line_7500]) MAINNET False =
     Inr (True, three_points) \<and>
   load_new_checkpoints hex_to_pod two_points (Loaded [line_7500]) MAINNET True =
     Inr (False, three_points)"
  using load_new_checkpoints_spec [of False hex_to_pod two_points "Loaded [line_7500]" MAINNET]
    load_new_checkpoints_spec [of True hex_to_pod two_points "Loaded [line_7500]" MAINNET]
  by (simp add: load_line_7500 load_checkpoints_from_dns_def)


end
